theory Spec2Isabelle
  imports Complex_Main
begin

section \<open>Data model\<close>

text \<open>
  The session engine is the React component \<^verbatim>\<open>App\<close>. Its state hooks and refs become
  the fields of one record; every handler becomes a function on that record. Values the
  handlers read from the platform (the output device clock, the wall clock, the duration
  of a decoded buffer) are arguments. Times are seconds as reals.
\<close>

datatype SessionState = DISCONNECTED | CONNECTING | CONNECTED | ERROR

datatype role = user | ai

record TranscriptionEntry =
  entry_text :: string
  entry_type :: role
  timestamp :: int

text \<open>An outbound media chunk, as handed to \<^verbatim>\<open>sendRealtimeInput\<close> of one session.\<close>

record chunk =
  session :: nat
  mimeType :: string
  payload :: string

text \<open>An interval timer created by \<^verbatim>\<open>window.setInterval\<close> in \<^verbatim>\<open>onopen\<close>.\<close>

record timer =
  tid :: nat
  owner :: nat
  period_ms :: nat

text \<open>
  The fields up to \<open>srcObject\<close> are the component's hooks and refs. The remaining ones
  are the world the handlers act on: the stored item \<^verbatim>\<open>vision_guide_db\<close>, the value of
  \<^verbatim>\<open>sessionState\<close> that each call of \<^verbatim>\<open>startSession\<close> closed over, the connections
  whose promise has resolved, the sessions closed, the running timers, the registered
  audio processors, the streams with live tracks, the \<^verbatim>\<open>start\<close> and \<^verbatim>\<open>stop\<close> calls made
  on playback sources, the chunks waiting for a connection and the chunks sent, and a
  counter for fresh identities (calls of \<^verbatim>\<open>startSession\<close>, timers, sources).
  \<^verbatim>\<open>sourcesRef\<close> is a JavaScript \<^verbatim>\<open>Set\<close>: a list in insertion order without duplicates.
\<close>

record state =
  sessionState :: SessionState
  transcriptions :: "TranscriptionEntry list"
  dbEntries :: "TranscriptionEntry list"
  error :: "string option"
  sessionRef :: "nat option"
  sourcesRef :: "nat list"
  nextStartTimeRef :: real
  intervalRef :: "nat option"
  currentInputTranscription :: string
  currentOutputTranscription :: string
  audioContextIn :: bool
  audioContextOut :: bool
  srcObject :: "nat option"
  localStorage_db :: "TranscriptionEntry list option"
  closures :: "nat \<Rightarrow> SessionState option"
  fulfilled :: "nat set"
  closed :: "nat set"
  timers :: "timer list"
  processors :: "nat set"
  liveStreams :: "nat set"
  started :: "(nat \<times> real) list"
  stopped :: "nat set"
  queued :: "chunk list"
  sent :: "chunk list"
  fresh :: nat

text \<open>What one run of \<^verbatim>\<open>onmessage\<close> reads from the platform.\<close>

record reads =
  currentTime :: real
  bufferDuration :: real
  dateNow_user :: int
  dateNow_ai :: int

text \<open>
  An inbound message, after the optional chains of \<^verbatim>\<open>onmessage\<close>: a field is \<open>None\<close>
  when a link of its chain is undefined. A transcription object may lack its text.
\<close>

record message =
  audioData :: "string option"
  inputTranscription :: "string option option"
  outputTranscription :: "string option option"
  turnComplete :: bool
  interrupted :: bool

section \<open>Constants\<close>

definition FRAME_RATE :: nat where
  "FRAME_RATE = 1"

definition JPEG_QUALITY :: real where
  "JPEG_QUALITY = 0.5"

definition start_error_default :: string where
  "start_error_default = ''Permissions or API access failed.''"

definition transport_error_text :: string where
  "transport_error_text = ''API limit or connection issue. Please try again.''"

section \<open>JavaScript helpers\<close>

text \<open>
  \<^verbatim>\<open>String.prototype.trim\<close> on strings of 8-bit characters: of the white space that
  ECMAScript strips, the code units below 256 are TAB, LF, VT, FF, CR, SPACE and NBSP.
\<close>

definition js_whitespace :: "char \<Rightarrow> bool" where
  "js_whitespace c = (of_char c \<in> {9, 10, 11, 12, 13, 32, 160 :: nat})"

definition trim :: "string \<Rightarrow> string" where
  "trim t = rev (dropWhile js_whitespace (rev (dropWhile js_whitespace t)))"

text \<open>\<^verbatim>\<open>buf += t.text\<close>: an undefined text is appended as the word undefined.\<close>

definition js_text :: "string option \<Rightarrow> string" where
  "js_text t = (case t of Some x \<Rightarrow> x | None \<Rightarrow> ''undefined'')"

text \<open>\<^verbatim>\<open>xs.slice(-n)\<close>: the last \<open>n\<close> elements, all of them when there are fewer.\<close>

definition slice_last :: "nat \<Rightarrow> 'a list \<Rightarrow> 'a list" where
  "slice_last n xs = drop (length xs - n) xs"

text \<open>\<^verbatim>\<open>Set.add\<close> and \<^verbatim>\<open>Set.delete\<close>.\<close>

definition set_add :: "nat \<Rightarrow> nat list \<Rightarrow> nat list" where
  "set_add h xs = (if h \<in> set xs then xs else xs @ [h])"

definition set_delete :: "nat \<Rightarrow> nat list \<Rightarrow> nat list" where
  "set_delete h xs = removeAll h xs"

section \<open>Calls that may throw, and try/catch\<close>

datatype call = SessionClose nat | SourceStop nat

datatype exn = Thrown

text \<open>
  \<^verbatim>\<open>session.close()\<close> and \<^verbatim>\<open>source.stop()\<close> either throw, leaving everything as it
  was, or take effect. Which calls throw is a parameter.
\<close>

definition session_close :: "(call \<Rightarrow> bool) \<Rightarrow> nat \<Rightarrow> state \<Rightarrow> exn + state" where
  "session_close fails k s =
     (if fails (SessionClose k) then Inl Thrown
      else Inr (s\<lparr>closed := insert k (closed s)\<rparr>))"

definition source_stop :: "(call \<Rightarrow> bool) \<Rightarrow> nat \<Rightarrow> state \<Rightarrow> exn + state" where
  "source_stop fails h s =
     (if fails (SourceStop h) then Inl Thrown
      else Inr (s\<lparr>stopped := insert h (stopped s)\<rparr>))"

text \<open>\<^verbatim>\<open>try { body } catch (e) {}\<close>\<close>

definition try_catch :: "(state \<Rightarrow> exn + state) \<Rightarrow> state \<Rightarrow> state" where
  "try_catch body s = (case body s of Inl e \<Rightarrow> s | Inr s' \<Rightarrow> s')"

text \<open>\<^verbatim>\<open>sourcesRef.current.forEach(s => { try { s.stop(); } catch(e) {} })\<close>\<close>

definition stop_sources :: "(call \<Rightarrow> bool) \<Rightarrow> state \<Rightarrow> state" where
  "stop_sources fails s =
     foldl (\<lambda>s' h. try_catch (source_stop fails h) s') s (sourcesRef s)"

section \<open>Storage\<close>

text \<open>\<^verbatim>\<open>saveToDb\<close>: prepend, keep the first 50, write the item, set the hook.\<close>

definition saveToDb :: "TranscriptionEntry \<Rightarrow> state \<Rightarrow> state" where
  "saveToDb entry s =
     (let updated = take 50 (entry # dbEntries s)
      in s\<lparr>localStorage_db := Some updated, dbEntries := updated\<rparr>)"

text \<open>The mount effect: a stored item replaces the empty Memory Log.\<close>

definition load_db :: "state \<Rightarrow> state" where
  "load_db s =
     (case localStorage_db s of
        Some xs \<Rightarrow> s\<lparr>dbEntries := xs\<rparr>
      | None \<Rightarrow> s)"

definition initial :: "TranscriptionEntry list option \<Rightarrow> state" where
  "initial st =
     \<lparr>sessionState = DISCONNECTED, transcriptions = [], dbEntries = [], error = None,
      sessionRef = None, sourcesRef = [], nextStartTimeRef = 0, intervalRef = None,
      currentInputTranscription = [], currentOutputTranscription = [],
      audioContextIn = False, audioContextOut = False, srcObject = None,
      localStorage_db = st, closures = (\<lambda>k. None), fulfilled = {}, closed = {},
      timers = [], processors = {}, liveStreams = {}, started = [], stopped = {},
      queued = [], sent = [], fresh = 1\<rparr>"

definition init :: "TranscriptionEntry list option \<Rightarrow> state" where
  "init st = load_db (initial st)"

section \<open>Session control\<close>

definition clearInterval :: "nat \<Rightarrow> state \<Rightarrow> state" where
  "clearInterval t s = s\<lparr>timers := filter (\<lambda>tm. tid tm \<noteq> t) (timers s)\<rparr>"

text \<open>
  \<^verbatim>\<open>stopSession\<close>, statement by statement. A session object is truthy; a timer
  identifier is truthy unless it is 0.
\<close>

definition stopSession :: "(call \<Rightarrow> bool) \<Rightarrow> state \<Rightarrow> state" where
  "stopSession fails s =
     (let s1 = (case sessionRef s of
                  Some k \<Rightarrow> (try_catch (session_close fails k) s)\<lparr>sessionRef := None\<rparr>
                | None \<Rightarrow> s);
          s2 = (case intervalRef s1 of
                  Some t \<Rightarrow> if t \<noteq> 0 then (clearInterval t s1)\<lparr>intervalRef := None\<rparr> else s1
                | None \<Rightarrow> s1);
          s3 = stop_sources fails s2;
          s4 = s3\<lparr>sourcesRef := []\<rparr>;
          s5 = s4\<lparr>sessionState := DISCONNECTED\<rparr>
      in (case srcObject s5 of
            Some m \<Rightarrow> s5\<lparr>liveStreams := liveStreams s5 - {m}, srcObject := None\<rparr>
          | None \<Rightarrow> s5))"

text \<open>
  \<^verbatim>\<open>startSession\<close> up to its first \<^verbatim>\<open>await\<close>. The call gets the identity \<open>fresh s\<close>,
  and the callbacks it creates later see the \<^verbatim>\<open>sessionState\<close> of the render in which
  the function was created, which is the state at the call.
\<close>

definition startSession :: "state \<Rightarrow> state" where
  "startSession s =
     s\<lparr>error := None, sessionState := CONNECTING,
       closures := (closures s)(fresh s \<mapsto> sessionState s),
       fresh := Suc (fresh s)\<rparr>"

text \<open>\<^verbatim>\<open>getUserMedia\<close> resolved: the stream of call \<open>k\<close> is attached to the video element.\<close>

definition gotUserMedia :: "nat \<Rightarrow> state \<Rightarrow> state" where
  "gotUserMedia k s = s\<lparr>srcObject := Some k, liveStreams := insert k (liveStreams s)\<rparr>"

text \<open>Both audio contexts created and resumed.\<close>

definition contextsCreated :: "state \<Rightarrow> state" where
  "contextsCreated s = s\<lparr>audioContextIn := True, audioContextOut := True\<rparr>"

text \<open>The \<^verbatim>\<open>catch\<close> block of \<^verbatim>\<open>startSession\<close>: \<^verbatim>\<open>err.message || '...'\<close>.\<close>

definition startFailed :: "string option \<Rightarrow> state \<Rightarrow> state" where
  "startFailed msg s =
     s\<lparr>error := Some (case msg of
                        Some m \<Rightarrow> if m \<noteq> [] then m else start_error_default
                      | None \<Rightarrow> start_error_default),
       sessionState := DISCONNECTED\<rparr>"

text \<open>
  \<^verbatim>\<open>sessionPromise.then(session => session.sendRealtimeInput(...))\<close>: the call is made
  at once when the promise of call \<open>k\<close> has resolved, and waits for it otherwise.
\<close>

definition submit :: "nat \<Rightarrow> string \<Rightarrow> string \<Rightarrow> state \<Rightarrow> state" where
  "submit k mime d s =
     (let c = \<lparr>session = k, mimeType = mime, payload = d\<rparr>
      in if k \<in> fulfilled s then s\<lparr>sent := sent s @ [c]\<rparr>
         else s\<lparr>queued := queued s @ [c]\<rparr>)"

text \<open>
  \<^verbatim>\<open>onopen\<close> of call \<open>k\<close>. The non-null assertion on \<^verbatim>\<open>audioContextIn.current\<close> throws
  when the context is missing, after the state has been set.
\<close>

definition onopen :: "nat \<Rightarrow> state \<Rightarrow> state" where
  "onopen k s =
     (let s1 = s\<lparr>sessionState := CONNECTED\<rparr>
      in if audioContextIn s1
         then s1\<lparr>processors := insert k (processors s1),
                 timers := timers s1 @ [\<lparr>tid = fresh s1, owner = k,
                                         period_ms = 1000 div FRAME_RATE\<rparr>],
                 intervalRef := Some (fresh s1),
                 fresh := Suc (fresh s1)\<rparr>
         else s1)"

text \<open>The promise of call \<open>k\<close> resolves: waiting chunks go out, \<^verbatim>\<open>sessionRef\<close> is set.\<close>

definition resolved :: "nat \<Rightarrow> state \<Rightarrow> state" where
  "resolved k s =
     s\<lparr>fulfilled := insert k (fulfilled s),
       sent := sent s @ filter (\<lambda>c. session c = k) (queued s),
       queued := filter (\<lambda>c. session c \<noteq> k) (queued s),
       sessionRef := Some k\<rparr>"

text \<open>\<^verbatim>\<open>onaudioprocess\<close> of the processor of call \<open>k\<close>, with the encoded block.\<close>

definition onaudioprocess :: "nat \<Rightarrow> string \<Rightarrow> state \<Rightarrow> state" where
  "onaudioprocess k d s =
     (if k \<in> processors s then submit k ''audio/pcm;rate=16000'' d s else s)"

text \<open>
  The timer callback. \<open>toBlob\<close> stands for the canvas: given the quality factor it
  yields the encoded frame, or \<open>None\<close> when the canvas gives no context or no blob. The
  test reads the \<^verbatim>\<open>sessionState\<close> its closure captured.
\<close>

definition video_tick :: "nat \<Rightarrow> (real \<Rightarrow> string option) \<Rightarrow> state \<Rightarrow> state" where
  "video_tick t toBlob s =
     (case find (\<lambda>tm. tid tm = t) (timers s) of
        None \<Rightarrow> s
      | Some tm \<Rightarrow>
          if closures s (owner tm) = Some CONNECTED
          then (case toBlob JPEG_QUALITY of
                  Some d \<Rightarrow> submit (owner tm) ''image/jpeg'' d s
                | None \<Rightarrow> s)
          else s)"

section \<open>Inbound messages\<close>

text \<open>
  The audio branch of \<^verbatim>\<open>onmessage\<close>: the cursor is first raised to the device clock,
  the new source is started at the cursor, the cursor moves on by the duration of the
  buffer, and the source joins the in-flight set.
\<close>

definition enqueue_audio :: "reads \<Rightarrow> state \<Rightarrow> state" where
  "enqueue_audio r s =
     (let s1 = s\<lparr>nextStartTimeRef := max (nextStartTimeRef s) (currentTime r)\<rparr>;
          h = fresh s1;
          s2 = s1\<lparr>started := started s1 @ [(h, nextStartTimeRef s1)], fresh := Suc h\<rparr>;
          s3 = s2\<lparr>nextStartTimeRef := nextStartTimeRef s2 + bufferDuration r\<rparr>
      in s3\<lparr>sourcesRef := set_add h (sourcesRef s3)\<rparr>)"

text \<open>\<^verbatim>\<open>source.onended\<close>\<close>

definition onended :: "nat \<Rightarrow> state \<Rightarrow> state" where
  "onended h s = s\<lparr>sourcesRef := set_delete h (sourcesRef s)\<rparr>"

text \<open>The entries pushed to \<^verbatim>\<open>newEntries\<close> from the two trimmed buffers.\<close>

definition newEntries :: "reads \<Rightarrow> string \<Rightarrow> string \<Rightarrow> TranscriptionEntry list" where
  "newEntries r userT aiT =
     (if userT \<noteq> []
      then [\<lparr>entry_text = userT, entry_type = user, timestamp = dateNow_user r\<rparr>]
      else [])
     @ (if aiT \<noteq> []
        then [\<lparr>entry_text = aiT, entry_type = ai, timestamp = dateNow_ai r\<rparr>]
        else [])"

text \<open>The \<^verbatim>\<open>turnComplete\<close> branch.\<close>

definition turn_complete :: "reads \<Rightarrow> state \<Rightarrow> state" where
  "turn_complete r s =
     (let userT = trim (currentInputTranscription s);
          aiT = trim (currentOutputTranscription s)
      in if userT \<noteq> [] \<or> aiT \<noteq> []
         then (let s1 = (if aiT \<noteq> []
                         then saveToDb \<lparr>entry_text = aiT, entry_type = ai,
                                        timestamp = dateNow_ai r\<rparr> s
                         else s)
               in s1\<lparr>transcriptions :=
                        slice_last 15 (transcriptions s1 @ newEntries r userT aiT),
                      currentInputTranscription := [],
                      currentOutputTranscription := []\<rparr>)
         else s)"

text \<open>The \<^verbatim>\<open>interrupted\<close> branch.\<close>

definition interrupt :: "(call \<Rightarrow> bool) \<Rightarrow> state \<Rightarrow> state" where
  "interrupt fails s = (stop_sources fails s)\<lparr>sourcesRef := [], nextStartTimeRef := 0\<rparr>"

text \<open>
  \<^verbatim>\<open>onmessage\<close>: the four branches in the order of the source. A run of the handler is
  one step: what follows the \<^verbatim>\<open>await\<close> of the audio branch is taken to run before the
  next event is handled. The decoded buffer enters through its duration.
\<close>

definition onmessage :: "(call \<Rightarrow> bool) \<Rightarrow> reads \<Rightarrow> message \<Rightarrow> state \<Rightarrow> state" where
  "onmessage fails r m s =
     (let s1 = (case audioData m of
                  Some a \<Rightarrow> if a \<noteq> [] \<and> audioContextOut s then enqueue_audio r s else s
                | None \<Rightarrow> s);
          s2 = (case inputTranscription m of
                  Some t \<Rightarrow> s1\<lparr>currentInputTranscription :=
                                 currentInputTranscription s1 @ js_text t\<rparr>
                | None \<Rightarrow> s1);
          s3 = (case outputTranscription m of
                  Some t \<Rightarrow> s2\<lparr>currentOutputTranscription :=
                                 currentOutputTranscription s2 @ js_text t\<rparr>
                | None \<Rightarrow> s2);
          s4 = (if turnComplete m then turn_complete r s3 else s3)
      in if interrupted m then interrupt fails s4 else s4)"

text \<open>\<^verbatim>\<open>onerror\<close> and \<^verbatim>\<open>onclose\<close>\<close>

definition onerror :: "(call \<Rightarrow> bool) \<Rightarrow> state \<Rightarrow> state" where
  "onerror fails s = stopSession fails (s\<lparr>error := Some transport_error_text\<rparr>)"

definition onclose :: "(call \<Rightarrow> bool) \<Rightarrow> state \<Rightarrow> state" where
  "onclose fails s = stopSession fails s"

section \<open>Events\<close>

text \<open>
  The action button is rendered with \<^verbatim>\<open>startSession\<close> while the state is
  \<^verbatim>\<open>DISCONNECTED\<close> and with \<^verbatim>\<open>stopSession\<close> otherwise.
\<close>

definition click :: "(call \<Rightarrow> bool) \<Rightarrow> state \<Rightarrow> state" where
  "click fails s =
     (if sessionState s = DISCONNECTED then startSession s else stopSession fails s)"

datatype event =
    Click
  | GotUserMedia nat
  | ContextsCreated
  | StartFailed "string option"
  | OnOpen nat
  | Resolved nat
  | OnMessage reads message
  | OnError
  | OnClose
  | VideoTick nat "real \<Rightarrow> string option"
  | AudioProcess nat string
  | SourceEnded nat

fun step :: "(call \<Rightarrow> bool) \<Rightarrow> state \<Rightarrow> event \<Rightarrow> state" where
  "step fails s Click = click fails s"
| "step fails s (GotUserMedia k) = gotUserMedia k s"
| "step fails s ContextsCreated = contextsCreated s"
| "step fails s (StartFailed msg) = startFailed msg s"
| "step fails s (OnOpen k) = onopen k s"
| "step fails s (Resolved k) = resolved k s"
| "step fails s (OnMessage r m) = onmessage fails r m s"
| "step fails s OnError = onerror fails s"
| "step fails s OnClose = onclose fails s"
| "step fails s (VideoTick t toBlob) = video_tick t toBlob s"
| "step fails s (AudioProcess k d) = onaudioprocess k d s"
| "step fails s (SourceEnded h) = onended h s"

definition run :: "(call \<Rightarrow> bool) \<Rightarrow> state \<Rightarrow> event list \<Rightarrow> state" where
  "run fails s es = foldl (step fails) s es"

text \<open>No call throws.\<close>

definition no_failure :: "call \<Rightarrow> bool" where
  "no_failure c = False"

section \<open>Derived notions\<close>

text \<open>What \<^verbatim>\<open>stopSession\<close> leaves in the fields it touches.\<close>

definition closed_after :: "(call \<Rightarrow> bool) \<Rightarrow> state \<Rightarrow> nat set" where
  "closed_after fails s =
     (case sessionRef s of
        Some k \<Rightarrow> if fails (SessionClose k) then closed s else insert k (closed s)
      | None \<Rightarrow> closed s)"

definition timers_after :: "state \<Rightarrow> timer list" where
  "timers_after s =
     (case intervalRef s of
        Some t \<Rightarrow> if t \<noteq> 0 then filter (\<lambda>tm. tid tm \<noteq> t) (timers s) else timers s
      | None \<Rightarrow> timers s)"

definition interval_after :: "state \<Rightarrow> nat option" where
  "interval_after s =
     (case intervalRef s of
        Some t \<Rightarrow> if t \<noteq> 0 then None else Some t
      | None \<Rightarrow> None)"

definition streams_after :: "state \<Rightarrow> nat set" where
  "streams_after s =
     (case srcObject s of
        Some m \<Rightarrow> liveStreams s - {m}
      | None \<Rightarrow> liveStreams s)"

fun is_message :: "event \<Rightarrow> bool" where
  "is_message (OnMessage r m) = True"
| "is_message e = False"

text \<open>The session states a run passes through, the first one included.\<close>

fun states_of :: "(call \<Rightarrow> bool) \<Rightarrow> state \<Rightarrow> event list \<Rightarrow> SessionState list" where
  "states_of fails s [] = [sessionState s]"
| "states_of fails s (e # es) = sessionState s # states_of fails (step fails s e) es"

text \<open>
  The edges of the specification: DISCONNECTED, CONNECTING, CONNECTED, DISCONNECTED on
  a normal stop, and CONNECTING or CONNECTED to ERROR to DISCONNECTED on failure.
\<close>

fun spec_edge :: "SessionState \<Rightarrow> SessionState \<Rightarrow> bool" where
  "spec_edge DISCONNECTED CONNECTING = True"
| "spec_edge CONNECTING CONNECTED = True"
| "spec_edge CONNECTED DISCONNECTED = True"
| "spec_edge CONNECTING ERROR = True"
| "spec_edge CONNECTED ERROR = True"
| "spec_edge ERROR DISCONNECTED = True"
| "spec_edge a b = False"

fun along_spec_edges :: "SessionState list \<Rightarrow> bool" where
  "along_spec_edges (a # b # rest) = ((a = b \<or> spec_edge a b) \<and> along_spec_edges (b # rest))"
| "along_spec_edges xs = True"

text \<open>A stored Memory Log that this program could have written.\<close>

definition stored_ok :: "TranscriptionEntry list option \<Rightarrow> bool" where
  "stored_ok st =
     (case st of
        None \<Rightarrow> True
      | Some xs \<Rightarrow> length xs \<le> 50 \<and> list_all (\<lambda>e. entry_type e = ai) xs)"

text \<open>The test of the audio branch: a non-empty payload and an output context.\<close>

definition has_audio :: "message \<Rightarrow> state \<Rightarrow> bool" where
  "has_audio m s =
     (case audioData m of
        Some a \<Rightarrow> a \<noteq> [] \<and> audioContextOut s
      | None \<Rightarrow> False)"

text \<open>Concrete inputs for the examples.\<close>

definition no_content :: message where
  "no_content = \<lparr>audioData = None, inputTranscription = None, outputTranscription = None,
                  turnComplete = False, interrupted = False\<rparr>"

definition at_clock :: "real \<Rightarrow> real \<Rightarrow> reads" where
  "at_clock t d = \<lparr>currentTime = t, bufferDuration = d, dateNow_user = 1000, dateNow_ai = 1001\<rparr>"

text \<open>A start from the button that reaches an open, resolved connection.\<close>

definition connect_events :: "event list" where
  "connect_events = [Click, GotUserMedia 1, ContextsCreated, OnOpen 1, Resolved 1]"

definition connected_state :: state where
  "connected_state = run no_failure (init None) connect_events"

text \<open>A message that carries audio only, and three of them, the last two late.\<close>

definition audio_msg :: message where
  "audio_msg = no_content\<lparr>audioData := Some ''pcm''\<rparr>"

definition late_events :: "event list" where
  "late_events =
     [OnMessage (at_clock 2 0.5) audio_msg,
      OnMessage (at_clock 5 0.3) audio_msg,
      OnMessage (at_clock 5.1 0.2) audio_msg]"

definition interrupt_msg :: message where
  "interrupt_msg = no_content\<lparr>interrupted := True\<rparr>"

text \<open>Two buffers in flight.\<close>

definition two_playing :: state where
  "two_playing =
     run no_failure connected_state
       [OnMessage (at_clock 2 0.5) audio_msg, OnMessage (at_clock 2.1 0.3) audio_msg]"

text \<open>Two input fragments and a turn boundary; a turn made of one space.\<close>

definition fragment_msg :: "string \<Rightarrow> message" where
  "fragment_msg t = no_content\<lparr>inputTranscription := Some (Some t)\<rparr>"

definition turn_msg :: message where
  "turn_msg = no_content\<lparr>turnComplete := True\<rparr>"

definition hello_fragments :: "event list" where
  "hello_fragments =
     [OnMessage (at_clock 0 0) (fragment_msg ''Hello ''),
      OnMessage (at_clock 0 0) (fragment_msg ''world'')]"

definition hello_events :: "event list" where
  "hello_events = hello_fragments @ [OnMessage (at_clock 0 0) turn_msg]"

definition blank_turn_msg :: message where
  "blank_turn_msg = no_content\<lparr>inputTranscription := Some (Some '' ''), turnComplete := True\<rparr>"

text \<open>The bounds and the persistence of the two logs.\<close>

definition log_inv :: "state \<Rightarrow> bool" where
  "log_inv s =
     (length (dbEntries s) \<le> 50
      \<and> list_all (\<lambda>e. entry_type e = ai) (dbEntries s)
      \<and> length (transcriptions s) \<le> 15
      \<and> (localStorage_db s = Some (dbEntries s)
          \<or> (localStorage_db s = None \<and> dbEntries s = [])))"

text \<open>
  The timer test can only succeed for a call of \<^verbatim>\<open>startSession\<close> made while the state
  was \<^verbatim>\<open>CONNECTED\<close>; the second part says that no frame has been handed to a session.
\<close>

definition video_inv :: "state \<Rightarrow> bool" where
  "video_inv s =
     ((\<forall>k. closures s k \<noteq> Some CONNECTED)
      \<and> (\<forall>c \<in> set (sent s) \<union> set (queued s). mimeType c \<noteq> ''image/jpeg''))"

text \<open>A full stored Memory Log, a state with a full Transcript Log, a reconnection.\<close>

definition old_entry :: TranscriptionEntry where
  "old_entry = \<lparr>entry_text = ''door ahead'', entry_type = ai, timestamp = 7\<rparr>"

definition new_entry :: TranscriptionEntry where
  "new_entry = \<lparr>entry_text = ''stairs'', entry_type = ai, timestamp = 9\<rparr>"

definition full_transcript :: state where
  "full_transcript =
     connected_state\<lparr>transcriptions := replicate 15 old_entry,
                      currentInputTranscription := ''Hi''\<rparr>"

definition reconnect_events :: "event list" where
  "reconnect_events = [Click, Click, GotUserMedia 3, ContextsCreated, OnOpen 3, Resolved 3]"

section \<open>Teardown\<close>

lemma try_stop:
  "try_catch (source_stop fails h) s =
     s\<lparr>stopped := (if fails (SourceStop h) then stopped s else insert h (stopped s))\<rparr>"
  by (simp add: try_catch_def source_stop_def)

lemma try_close:
  "try_catch (session_close fails k) s =
     s\<lparr>closed := (if fails (SessionClose k) then closed s else insert k (closed s))\<rparr>"
  by (simp add: try_catch_def session_close_def)

lemma foldl_stop:
  "foldl (\<lambda>s' h. try_catch (source_stop fails h) s') s xs =
     s\<lparr>stopped := stopped s \<union> {h \<in> set xs. \<not> fails (SourceStop h)}\<rparr>"
proof (induction xs arbitrary: s)
  case Nil
  show ?case by simp
next
  case (Cons x xs)
  let ?F = "\<lambda>s' h. try_catch (source_stop fails h) s'"
  let ?s = "try_catch (source_stop fails x) s"
  have set_eq: "stopped ?s \<union> {h \<in> set xs. \<not> fails (SourceStop h)} =
        stopped s \<union> {h \<in> set (x # xs). \<not> fails (SourceStop h)}"
    by (auto simp: try_stop)
  have "foldl ?F s (x # xs) = foldl ?F ?s xs"
    by simp
  also have "\<dots> = ?s\<lparr>stopped := stopped ?s \<union> {h \<in> set xs. \<not> fails (SourceStop h)}\<rparr>"
    by (rule Cons.IH)
  also have "\<dots> = ?s\<lparr>stopped := stopped s \<union> {h \<in> set (x # xs). \<not> fails (SourceStop h)}\<rparr>"
    by (simp only: set_eq)
  also have "\<dots> = s\<lparr>stopped := stopped s \<union> {h \<in> set (x # xs). \<not> fails (SourceStop h)}\<rparr>"
    by (simp add: try_stop del: set_simps)
  finally show ?case .
qed

lemma stop_sources_eq:
  "stop_sources fails s =
     s\<lparr>stopped := stopped s \<union> {h \<in> set (sourcesRef s). \<not> fails (SourceStop h)}\<rparr>"
  by (simp add: stop_sources_def foldl_stop)

lemma stopSession_eq:
  "stopSession fails s =
     s\<lparr>sessionState := DISCONNECTED, sessionRef := None, sourcesRef := [],
       intervalRef := interval_after s, srcObject := None,
       closed := closed_after fails s, timers := timers_after s,
       liveStreams := streams_after s,
       stopped := stopped s \<union> {h \<in> set (sourcesRef s). \<not> fails (SourceStop h)}\<rparr>"
  by (cases "sessionRef s"; cases "intervalRef s"; cases "srcObject s")
     (simp_all add: stopSession_def stop_sources_eq try_close clearInterval_def Let_def
        closed_after_def timers_after_def interval_after_def streams_after_def)

lemma stopSession_twice: "stopSession f2 (stopSession f1 s) = stopSession f1 s"
proof -
  let ?s = "stopSession f1 s"
  have f: "sessionRef ?s = None" "sourcesRef ?s = []" "srcObject ?s = None"
    "intervalRef ?s = interval_after s" "sessionState ?s = DISCONNECTED"
    by (simp_all add: stopSession_eq)
  have "stopSession f2 ?s = ?s\<lparr>sessionState := DISCONNECTED, sessionRef := None, sourcesRef := [],
       intervalRef := interval_after ?s, srcObject := None,
       closed := closed_after f2 ?s, timers := timers_after ?s,
       liveStreams := streams_after ?s,
       stopped := stopped ?s \<union> {h \<in> set (sourcesRef ?s). \<not> f2 (SourceStop h)}\<rparr>"
    by (rule stopSession_eq)
  also have "\<dots> = ?s"
    by (simp add: f closed_after_def timers_after_def interval_after_def streams_after_def
        split: option.splits)
  finally show ?thesis .
qed

lemma stopSession_fields:
  "sessionState (stopSession fails s) = DISCONNECTED"
  "sessionRef (stopSession fails s) = None"
  "sourcesRef (stopSession fails s) = []"
  "srcObject (stopSession fails s) = None"
  "transcriptions (stopSession fails s) = transcriptions s"
  "dbEntries (stopSession fails s) = dbEntries s"
  "localStorage_db (stopSession fails s) = localStorage_db s"
  "error (stopSession fails s) = error s"
  "nextStartTimeRef (stopSession fails s) = nextStartTimeRef s"
  "closures (stopSession fails s) = closures s"
  "sent (stopSession fails s) = sent s"
  "queued (stopSession fails s) = queued s"
  "processors (stopSession fails s) = processors s"
  "fulfilled (stopSession fails s) = fulfilled s"
  "started (stopSession fails s) = started s"
  "fresh (stopSession fails s) = fresh s"
  "audioContextOut (stopSession fails s) = audioContextOut s"
  "audioContextIn (stopSession fails s) = audioContextIn s"
  "currentInputTranscription (stopSession fails s) = currentInputTranscription s"
  "currentOutputTranscription (stopSession fails s) = currentOutputTranscription s"
  by (simp_all add: stopSession_eq)

section \<open>Concrete states\<close>

lemma init_None: "init None = initial None"
  by (simp add: init_def load_db_def initial_def)

lemma connected_state_eq:
  "connected_state =
     \<lparr>sessionState = CONNECTED, transcriptions = [], dbEntries = [], error = None,
      sessionRef = Some 1, sourcesRef = [], nextStartTimeRef = 0, intervalRef = Some 2,
      currentInputTranscription = [], currentOutputTranscription = [],
      audioContextIn = True, audioContextOut = True, srcObject = Some 1,
      localStorage_db = None, closures = [1 \<mapsto> DISCONNECTED], fulfilled = {1},
      closed = {}, timers = [\<lparr>tid = 2, owner = 1, period_ms = 1000\<rparr>],
      processors = {1}, liveStreams = {1}, started = [], stopped = {}, queued = [],
      sent = [], fresh = 3\<rparr>"
  by (simp add: connected_state_def connect_events_def run_def init_None initial_def
      click_def startSession_def gotUserMedia_def contextsCreated_def onopen_def
      resolved_def FRAME_RATE_def)

section \<open>Stopping\<close>

text \<open>
  C9. \<^verbatim>\<open>stopSession\<close> is a total function of the state for every choice of throwing
  calls: each call that may throw sits in a try/catch. A second call changes nothing,
  whatever its calls would do, and with calls that never throw it closes no session and
  stops no source again, so no release is repeated. The state after it is DISCONNECTED
  with the session, the in-flight set and the stream released, also when every call
  throws. The error paths (the transport error callback, the transport close callback
  and the catch block of a failed start) all end in DISCONNECTED.
\<close>

theorem stop_idempotent:
  "stopSession f2 (stopSession f1 s) = stopSession f1 s
   \<and> sessionState (stopSession f1 s) = DISCONNECTED
   \<and> sessionRef (stopSession f1 s) = None
   \<and> sourcesRef (stopSession f1 s) = []
   \<and> srcObject (stopSession f1 s) = None
   \<and> closed (stopSession no_failure (stopSession f1 s)) = closed (stopSession f1 s)
   \<and> stopped (stopSession no_failure (stopSession f1 s)) = stopped (stopSession f1 s)
   \<and> sessionState (stopSession (\<lambda>c. True) s) = DISCONNECTED
   \<and> sessionState (onerror f1 s) = DISCONNECTED
   \<and> sessionState (onclose f1 s) = DISCONNECTED
   \<and> sessionState (startFailed msg s) = DISCONNECTED"
proof -
  have twice: "stopSession f (stopSession f1 s) = stopSession f1 s" for f
    by (rule stopSession_twice)
  have released: "sessionState (stopSession f s) = DISCONNECTED"
    "sessionRef (stopSession f s) = None" "sourcesRef (stopSession f s) = []"
    "srcObject (stopSession f s) = None" for f
    by (simp_all add: stopSession_fields)
  have error_paths: "sessionState (onerror f1 s) = DISCONNECTED"
    "sessionState (onclose f1 s) = DISCONNECTED"
    "sessionState (startFailed msg s) = DISCONNECTED"
    by (simp_all add: onerror_def onclose_def startFailed_def stopSession_fields)
  show ?thesis
    by (simp only: twice released error_paths simp_thms)
qed

theorem stop_idempotent_witness:
  "stopSession (\<lambda>c. True) (stopSession no_failure connected_state)
     = stopSession no_failure connected_state
   \<and> sessionState connected_state = CONNECTED
   \<and> sessionState (stopSession no_failure connected_state) = DISCONNECTED
   \<and> closed (stopSession no_failure connected_state) = {1}
   \<and> sessionState (onerror (\<lambda>c. True) connected_state) = DISCONNECTED"
proof -
  have "closed (stopSession no_failure connected_state) = {1}"
    by (simp add: stopSession_eq closed_after_def connected_state_eq no_failure_def)
  moreover have "sessionState connected_state = CONNECTED"
    by (simp add: connected_state_eq)
  ultimately show ?thesis
    using stop_idempotent [of "\<lambda>c. True" no_failure connected_state None]
      stop_idempotent [of "\<lambda>c. True" "\<lambda>c. True" connected_state None]
    by simp
qed

section \<open>The session state\<close>

lemma run_Cons: "run fails s (e # es) = run fails (step fails s e) es"
  by (simp add: run_def)

lemma run_Nil: "run fails s [] = s"
  by (simp add: run_def)

lemma interrupt_eq:
  "interrupt fails s =
     s\<lparr>sourcesRef := [], nextStartTimeRef := 0,
       stopped := stopped s \<union> {h \<in> set (sourcesRef s). \<not> fails (SourceStop h)}\<rparr>"
  by (simp add: interrupt_def stop_sources_eq)

lemma enqueue_audio_eq:
  "enqueue_audio r s =
     s\<lparr>nextStartTimeRef := max (nextStartTimeRef s) (currentTime r) + bufferDuration r,
       started := started s @ [(fresh s, max (nextStartTimeRef s) (currentTime r))],
       fresh := Suc (fresh s),
       sourcesRef := set_add (fresh s) (sourcesRef s)\<rparr>"
  by (simp add: enqueue_audio_def Let_def)

lemma turn_complete_sessionState: "sessionState (turn_complete r s) = sessionState s"
  by (simp add: turn_complete_def saveToDb_def Let_def)

lemma onmessage_sessionState: "sessionState (onmessage fails r m s) = sessionState s"
  by (simp add: onmessage_def Let_def interrupt_eq enqueue_audio_eq turn_complete_sessionState
      split: option.splits)

lemma step_sessionState_cases:
  "sessionState (step fails s e) =
     (case e of
        Click \<Rightarrow> if sessionState s = DISCONNECTED then CONNECTING else DISCONNECTED
      | StartFailed msg \<Rightarrow> DISCONNECTED
      | OnOpen k \<Rightarrow> CONNECTED
      | OnError \<Rightarrow> DISCONNECTED
      | OnClose \<Rightarrow> DISCONNECTED
      | _ \<Rightarrow> sessionState s)"
  by (cases e)
     (simp_all add: click_def startSession_def stopSession_fields gotUserMedia_def
        contextsCreated_def startFailed_def onopen_def resolved_def onerror_def onclose_def
        video_tick_def onaudioprocess_def submit_def onended_def Let_def
        onmessage_sessionState
        split: option.splits)

lemma run_not_error:
  "sessionState s \<noteq> ERROR \<Longrightarrow> sessionState (run fails s es) \<noteq> ERROR"
proof (induction es arbitrary: s)
  case Nil
  then show ?case by (simp add: run_Nil)
next
  case (Cons e es)
  have "sessionState (step fails s e) \<noteq> ERROR"
    using Cons.prems by (simp add: step_sessionState_cases split: event.splits)
  then show ?case
    by (simp add: run_Cons Cons.IH)
qed

lemma init_sessionState: "sessionState (init st) = DISCONNECTED"
  by (simp add: init_def load_db_def initial_def split: option.splits)

text \<open>
  C1, as stated, fails: a start that fails goes from CONNECTING straight to DISCONNECTED,
  which is not one of the edges of the specification. The run is a press of the start
  button followed by the catch block of \<^verbatim>\<open>startSession\<close>.
\<close>

theorem failed_start_is_not_a_spec_edge:
  "states_of no_failure (init None) [Click, StartFailed (Some ''Permission denied'')]
     = [DISCONNECTED, CONNECTING, DISCONNECTED]
   \<and> \<not> along_spec_edges
         (states_of no_failure (init None) [Click, StartFailed (Some ''Permission denied'')])
   \<and> error (run no_failure (init None) [Click, StartFailed (Some ''Permission denied'')])
       = Some ''Permission denied''"
  by (simp add: init_None initial_def click_def startSession_def startFailed_def run_def)

text \<open>
  C1, amended. The state never becomes ERROR: no handler assigns it. CONNECTING is
  entered only from DISCONNECTED, by the action button, which starts a session while
  the state is DISCONNECTED and stops it otherwise. CONNECTED is entered only by the
  transport-open callback, which takes CONNECTING to CONNECTED. A failed start, a
  transport error and a transport close lead to DISCONNECTED, without passing through
  ERROR.
\<close>

theorem session_state_transitions:
  "(sessionState s \<noteq> ERROR \<longrightarrow> sessionState (step fails s e) \<noteq> ERROR)
   \<and> sessionState (run fails (init st) es) \<noteq> ERROR
   \<and> (sessionState (step fails s e) = CONNECTING \<longrightarrow>
        sessionState s = CONNECTING \<or> (sessionState s = DISCONNECTED \<and> e = Click))
   \<and> (sessionState (step fails s e) = CONNECTED \<longrightarrow>
        sessionState s = CONNECTED \<or> (\<exists>k. e = OnOpen k))
   \<and> (sessionState s = DISCONNECTED \<longrightarrow> sessionState (step fails s Click) = CONNECTING)
   \<and> (sessionState s \<noteq> DISCONNECTED \<longrightarrow> sessionState (step fails s Click) = DISCONNECTED)
   \<and> (sessionState s = CONNECTING \<longrightarrow> sessionState (step fails s (OnOpen k)) = CONNECTED)
   \<and> sessionState (step fails s (StartFailed msg)) = DISCONNECTED
   \<and> sessionState (step fails s OnError) = DISCONNECTED
   \<and> sessionState (step fails s OnClose) = DISCONNECTED"
proof -
  have never_error: "sessionState s \<noteq> ERROR \<longrightarrow> sessionState (step fails s e) \<noteq> ERROR"
    by (simp add: step_sessionState_cases split: event.splits)
  have reachable: "sessionState (run fails (init st) es) \<noteq> ERROR"
    by (rule run_not_error) (simp add: init_sessionState)
  have connecting: "sessionState (step fails s e) = CONNECTING \<longrightarrow>
        sessionState s = CONNECTING \<or> (sessionState s = DISCONNECTED \<and> e = Click)"
    by (simp add: step_sessionState_cases split: event.splits)
  have connected: "sessionState (step fails s e) = CONNECTED \<longrightarrow>
        sessionState s = CONNECTED \<or> (\<exists>k. e = OnOpen k)"
    by (simp add: step_sessionState_cases split: event.splits)
  have button: "sessionState s = DISCONNECTED \<longrightarrow> sessionState (step fails s Click) = CONNECTING"
    "sessionState s \<noteq> DISCONNECTED \<longrightarrow> sessionState (step fails s Click) = DISCONNECTED"
    by (simp_all add: step_sessionState_cases del: step.simps)
  have callbacks: "sessionState s = CONNECTING \<longrightarrow> sessionState (step fails s (OnOpen k)) = CONNECTED"
    "sessionState (step fails s (StartFailed msg)) = DISCONNECTED"
    "sessionState (step fails s OnError) = DISCONNECTED"
    "sessionState (step fails s OnClose) = DISCONNECTED"
    by (simp_all add: step_sessionState_cases del: step.simps)
  from never_error reachable connecting connected button callbacks show ?thesis
    by (intro conjI)
qed

theorem session_state_transitions_witness:
  "sessionState (init None) = DISCONNECTED
   \<and> sessionState (step no_failure (init None) Click) = CONNECTING
   \<and> sessionState (step no_failure (step no_failure (init None) Click) (OnOpen 1)) = CONNECTED
   \<and> sessionState connected_state \<noteq> ERROR
   \<and> sessionState connected_state \<noteq> DISCONNECTED
   \<and> sessionState (step no_failure connected_state Click) = DISCONNECTED
   \<and> sessionState (step no_failure connected_state OnError) = DISCONNECTED
   \<and> sessionState (step no_failure connected_state (GotUserMedia 7)) \<noteq> ERROR"
proof -
  have 1: "sessionState connected_state = CONNECTED"
    by (simp add: connected_state_eq)
  have 2: "sessionState (init None) = DISCONNECTED"
    by (simp add: init_None initial_def)
  from 2 session_state_transitions [of "init None" no_failure Click None "[]" 1 None]
  have 3: "sessionState (step no_failure (init None) Click) = CONNECTING"
    by blast
  from 3 session_state_transitions [of "step no_failure (init None) Click" no_failure Click
      None "[]" 1 None]
  have 4: "sessionState (step no_failure (step no_failure (init None) Click) (OnOpen 1))
      = CONNECTED"
    by blast
  from 1 session_state_transitions [of connected_state no_failure "GotUserMedia 7" None "[]"
      1 None]
  have 5: "sessionState (step no_failure connected_state Click) = DISCONNECTED"
    "sessionState (step no_failure connected_state OnError) = DISCONNECTED"
    "sessionState (step no_failure connected_state (GotUserMedia 7)) \<noteq> ERROR"
    by (simp_all del: step.simps)
  from 1 2 3 4 5 show ?thesis
    by (simp del: step.simps)
qed

section \<open>What a message leaves alone\<close>

lemma turn_complete_frame:
  "sessionState (turn_complete r s) = sessionState s"
  "error (turn_complete r s) = error s"
  "sessionRef (turn_complete r s) = sessionRef s"
  "sourcesRef (turn_complete r s) = sourcesRef s"
  "nextStartTimeRef (turn_complete r s) = nextStartTimeRef s"
  "intervalRef (turn_complete r s) = intervalRef s"
  "audioContextIn (turn_complete r s) = audioContextIn s"
  "audioContextOut (turn_complete r s) = audioContextOut s"
  "srcObject (turn_complete r s) = srcObject s"
  "closures (turn_complete r s) = closures s"
  "fulfilled (turn_complete r s) = fulfilled s"
  "closed (turn_complete r s) = closed s"
  "timers (turn_complete r s) = timers s"
  "processors (turn_complete r s) = processors s"
  "liveStreams (turn_complete r s) = liveStreams s"
  "started (turn_complete r s) = started s"
  "stopped (turn_complete r s) = stopped s"
  "queued (turn_complete r s) = queued s"
  "sent (turn_complete r s) = sent s"
  "fresh (turn_complete r s) = fresh s"
  by (simp_all add: turn_complete_def saveToDb_def Let_def)

lemma onmessage_frame:
  "sessionState (onmessage fails r m s) = sessionState s"
  "error (onmessage fails r m s) = error s"
  "sessionRef (onmessage fails r m s) = sessionRef s"
  "intervalRef (onmessage fails r m s) = intervalRef s"
  "audioContextIn (onmessage fails r m s) = audioContextIn s"
  "audioContextOut (onmessage fails r m s) = audioContextOut s"
  "srcObject (onmessage fails r m s) = srcObject s"
  "closures (onmessage fails r m s) = closures s"
  "fulfilled (onmessage fails r m s) = fulfilled s"
  "closed (onmessage fails r m s) = closed s"
  "timers (onmessage fails r m s) = timers s"
  "processors (onmessage fails r m s) = processors s"
  "liveStreams (onmessage fails r m s) = liveStreams s"
  "queued (onmessage fails r m s) = queued s"
  "sent (onmessage fails r m s) = sent s"
  by (simp_all add: onmessage_def Let_def interrupt_eq enqueue_audio_eq turn_complete_frame
      split: option.splits)

section \<open>The scheduler\<close>

lemma onmessage_started:
  "started (onmessage fails r m s) =
     (if has_audio m s
      then started s @ [(fresh s, max (nextStartTimeRef s) (currentTime r))]
      else started s)"
  by (simp add: onmessage_def Let_def interrupt_eq enqueue_audio_eq turn_complete_frame
      has_audio_def split: option.splits)

lemma onmessage_fresh:
  "fresh (onmessage fails r m s) = (if has_audio m s then Suc (fresh s) else fresh s)"
  by (simp add: onmessage_def Let_def interrupt_eq enqueue_audio_eq turn_complete_frame
      has_audio_def split: option.splits)

lemma onmessage_cursor:
  "nextStartTimeRef (onmessage fails r m s) =
     (if interrupted m then 0
      else if has_audio m s
           then max (nextStartTimeRef s) (currentTime r) + bufferDuration r
           else nextStartTimeRef s)"
  by (simp add: onmessage_def Let_def interrupt_eq enqueue_audio_eq turn_complete_frame
      has_audio_def split: option.splits)

lemma onmessage_sources:
  "sourcesRef (onmessage fails r m s) =
     (if interrupted m then []
      else if has_audio m s then set_add (fresh s) (sourcesRef s)
           else sourcesRef s)"
  by (simp add: onmessage_def Let_def interrupt_eq enqueue_audio_eq turn_complete_frame
      has_audio_def split: option.splits)

lemma onmessage_stopped:
  "stopped (onmessage fails r m s) =
     (if interrupted m
      then stopped s \<union> {h \<in> set (if has_audio m s then set_add (fresh s) (sourcesRef s)
                                   else sourcesRef s). \<not> fails (SourceStop h)}
      else stopped s)"
  by (simp add: onmessage_def Let_def interrupt_eq enqueue_audio_eq turn_complete_frame
      has_audio_def split: option.splits)

lemma has_audio_onmessage: "has_audio m' (onmessage fails r m s) = has_audio m' s"
  by (simp add: has_audio_def onmessage_frame split: option.splits)

lemma connected_state_fields:
  "sessionState connected_state = CONNECTED"
  "audioContextOut connected_state"
  "nextStartTimeRef connected_state = 0"
  "started connected_state = []"
  "sourcesRef connected_state = []"
  "fresh connected_state = 3"
  "stopped connected_state = {}"
  "transcriptions connected_state = []"
  "dbEntries connected_state = []"
  "currentInputTranscription connected_state = []"
  "currentOutputTranscription connected_state = []"
  "sent connected_state = []"
  "queued connected_state = []"
  "processors connected_state = {1}"
  "fulfilled connected_state = {1}"
  "closed connected_state = {}"
  "liveStreams connected_state = {1}"
  "intervalRef connected_state = Some 2"
  "sessionRef connected_state = Some 1"
  "srcObject connected_state = Some 1"
  "timers connected_state = [\<lparr>tid = 2, owner = 1, period_ms = 1000\<rparr>]"
  "closures connected_state 1 = Some DISCONNECTED"
  by (simp_all add: connected_state_eq)

lemma audio_msg_fields:
  "audioData audio_msg = Some ''pcm''" "\<not> interrupted audio_msg" "\<not> turnComplete audio_msg"
  "inputTranscription audio_msg = None" "outputTranscription audio_msg = None"
  by (simp_all add: audio_msg_def no_content_def)

lemma has_audio_audio_msg: "has_audio audio_msg s = audioContextOut s"
  by (simp add: has_audio_def audio_msg_fields)

lemma at_clock_fields:
  "currentTime (at_clock t d) = t" "bufferDuration (at_clock t d) = d"
  "dateNow_user (at_clock t d) = 1000" "dateNow_ai (at_clock t d) = 1001"
  by (simp_all add: at_clock_def)

text \<open>
  C4, as stated, fails: a buffer that arrives after the device clock has passed the
  cursor starts at the clock, not at the end of the previous buffer. Three buffers of
  0.5, 0.3 and 0.2 seconds arrive at clock 2, 5 and 5.1: they start at 2, 5 and 5.3, not
  at 2, 2.5 and 2.8.
\<close>

theorem late_buffer_leaves_gap:
  "map snd (started (run no_failure connected_state late_events)) = [2, 5, 5.3]
   \<and> map snd (started (run no_failure connected_state late_events))
       \<noteq> [2, 2 + 0.5, 2 + 0.5 + 0.3]"
proof -
  have "map snd (started (run no_failure connected_state late_events)) = [2, 5, 5.3]"
    by (simp add: late_events_def run_def onmessage_started onmessage_cursor onmessage_fresh
        has_audio_onmessage has_audio_audio_msg audio_msg_fields at_clock_fields
        connected_state_fields)
  then show ?thesis by simp
qed

text \<open>
  C4, amended. Every enqueued buffer starts at the maximum of the cursor and the device
  clock, and the cursor moves to that start plus the duration of the buffer. Three
  buffers enqueued with no interruption never overlap: each starts no earlier than the
  end of the one before. They start at \<open>t0\<close>, \<open>t0 + d1\<close>, \<open>t0 + d1 + d2\<close>, with no gap,
  when at the second and third enqueue the device clock has not passed the cursor.
\<close>

theorem gapless_schedule:
  "has_audio m1 s \<and> has_audio m2 s \<and> has_audio m3 s
   \<and> \<not> interrupted m1 \<and> \<not> interrupted m2 \<and> \<not> interrupted m3 \<longrightarrow>
   (let t0 = max (nextStartTimeRef s) (currentTime r1);
        d1 = bufferDuration r1;
        d2 = bufferDuration r2;
        d3 = bufferDuration r3;
        t1 = max (t0 + d1) (currentTime r2);
        t2 = max (t1 + d2) (currentTime r3);
        s1 = onmessage fails r1 m1 s;
        s3 = run fails s [OnMessage r1 m1, OnMessage r2 m2, OnMessage r3 m3]
    in started s1 = started s @ [(fresh s, t0)]
       \<and> nextStartTimeRef s1 = t0 + d1
       \<and> map snd (started s3) = map snd (started s) @ [t0, t1, t2]
       \<and> nextStartTimeRef s3 = t2 + d3
       \<and> t0 + d1 \<le> t1 \<and> t1 + d2 \<le> t2
       \<and> (currentTime r2 \<le> t0 + d1 \<and> currentTime r3 \<le> t0 + d1 + d2 \<longrightarrow>
            map snd (started s3) = map snd (started s) @ [t0, t0 + d1, t0 + d1 + d2]))"
  by (simp add: Let_def run_def onmessage_started onmessage_cursor onmessage_fresh
      has_audio_onmessage max_def)

theorem gapless_schedule_witness:
  "has_audio audio_msg connected_state \<and> \<not> interrupted audio_msg
   \<and> map snd (started (run no_failure connected_state
         [OnMessage (at_clock 2 0.5) audio_msg, OnMessage (at_clock 2.1 0.3) audio_msg,
          OnMessage (at_clock 2.6 0.2) audio_msg])) = [2, 2 + 0.5, 2 + 0.5 + 0.3]
   \<and> nextStartTimeRef (run no_failure connected_state
         [OnMessage (at_clock 2 0.5) audio_msg, OnMessage (at_clock 2.1 0.3) audio_msg,
          OnMessage (at_clock 2.6 0.2) audio_msg]) = 3"
proof -
  have h: "has_audio audio_msg connected_state" "\<not> interrupted audio_msg"
    by (simp_all add: has_audio_audio_msg connected_state_fields audio_msg_fields)
  from h gapless_schedule [of audio_msg connected_state audio_msg audio_msg
      "at_clock 2 0.5" "at_clock 2.1 0.3" "at_clock 2.6 0.2" no_failure]
  show ?thesis
    by (simp add: Let_def at_clock_fields connected_state_fields)
qed

lemma set_add_mono: "h \<in> set xs \<Longrightarrow> h \<in> set (set_add x xs)"
  by (simp add: set_add_def)

text \<open>
  C5. A message that carries the interrupted flag leaves the in-flight set empty and
  the cursor at 0, whatever the set held before. \<^verbatim>\<open>stop\<close> is called on every handle
  that was in flight: each one whose call does not throw is stopped (a throw is
  swallowed), so all of them are when no call throws. The next buffer enqueued after
  it starts at the reading of the device clock, which is never negative.
\<close>

theorem interruption_resets_scheduler:
  "interrupted m \<longrightarrow>
   (let s' = onmessage fails r m s
    in sourcesRef s' = []
       \<and> nextStartTimeRef s' = 0
       \<and> (\<forall>h \<in> set (sourcesRef s). \<not> fails (SourceStop h) \<longrightarrow> h \<in> stopped s')
       \<and> set (sourcesRef s) \<subseteq> stopped (onmessage no_failure r m s)
       \<and> (has_audio m2 s \<and> 0 \<le> currentTime r2 \<longrightarrow>
            started (onmessage fails r2 m2 s') = started s' @ [(fresh s', currentTime r2)]))"
proof (intro impI)
  assume i: "interrupted m"
  let ?s = "onmessage fails r m s"
  have 1: "sourcesRef ?s = []" "nextStartTimeRef ?s = 0"
    using i by (simp_all add: onmessage_sources onmessage_cursor)
  have 2: "\<forall>h \<in> set (sourcesRef s). \<not> fails (SourceStop h) \<longrightarrow> h \<in> stopped ?s"
    using i by (simp add: onmessage_stopped set_add_mono)
  have 3: "set (sourcesRef s) \<subseteq> stopped (onmessage no_failure r m s)"
    using i by (auto simp: onmessage_stopped set_add_mono no_failure_def)
  have 4: "has_audio m2 s \<and> 0 \<le> currentTime r2 \<longrightarrow>
            started (onmessage fails r2 m2 ?s) = started ?s @ [(fresh ?s, currentTime r2)]"
    by (simp add: onmessage_started has_audio_onmessage 1)
  from 1 2 3 4 show "let s' = ?s
    in sourcesRef s' = []
       \<and> nextStartTimeRef s' = 0
       \<and> (\<forall>h \<in> set (sourcesRef s). \<not> fails (SourceStop h) \<longrightarrow> h \<in> stopped s')
       \<and> set (sourcesRef s) \<subseteq> stopped (onmessage no_failure r m s)
       \<and> (has_audio m2 s \<and> 0 \<le> currentTime r2 \<longrightarrow>
            started (onmessage fails r2 m2 s') = started s' @ [(fresh s', currentTime r2)])"
    by (simp only: Let_def simp_thms)
qed

lemma two_playing_fields:
  "sourcesRef two_playing = [3, 4]"
  "nextStartTimeRef two_playing = 2.8"
  "started two_playing = [(3, 2), (4, 2.5)]"
  "fresh two_playing = 5"
  "stopped two_playing = {}"
  "audioContextOut two_playing"
  by (simp_all add: two_playing_def run_def onmessage_started onmessage_cursor onmessage_fresh
      onmessage_sources onmessage_stopped onmessage_frame
      has_audio_onmessage has_audio_audio_msg audio_msg_fields at_clock_fields
      connected_state_fields set_add_def)

theorem interruption_resets_scheduler_witness:
  "interrupted interrupt_msg
   \<and> sourcesRef two_playing = [3, 4]
   \<and> nextStartTimeRef two_playing = 2.8
   \<and> sourcesRef (onmessage no_failure (at_clock 2.2 0) interrupt_msg two_playing) = []
   \<and> nextStartTimeRef (onmessage no_failure (at_clock 2.2 0) interrupt_msg two_playing) = 0
   \<and> {3, 4} \<subseteq> stopped (onmessage no_failure (at_clock 2.2 0) interrupt_msg two_playing)
   \<and> has_audio audio_msg two_playing
   \<and> map snd (started (onmessage no_failure (at_clock 2.3 0.4) audio_msg
        (onmessage no_failure (at_clock 2.2 0) interrupt_msg two_playing)))
      = [2, 2.5, 2.3]"
proof -
  have h: "interrupted interrupt_msg" "has_audio audio_msg two_playing"
    "(0::real) \<le> currentTime (at_clock 2.3 0.4)"
    by (simp_all add: interrupt_msg_def no_content_def has_audio_audio_msg two_playing_fields
        at_clock_fields)
  have st: "started (onmessage no_failure (at_clock 2.2 0) interrupt_msg two_playing)
            = [(3, 2), (4, 2.5)]"
    by (simp add: onmessage_started has_audio_def interrupt_msg_def no_content_def
        two_playing_fields)
  from h st interruption_resets_scheduler [of interrupt_msg no_failure "at_clock 2.2 0" two_playing
      audio_msg "at_clock 2.3 0.4"]
  show ?thesis
    by (simp add: Let_def two_playing_fields at_clock_fields)
qed

section \<open>Turns\<close>

lemma trim_Nil: "trim [] = []"
  by (simp add: trim_def)

lemma turn_complete_cases:
  "turn_complete r s =
     (if trim (currentInputTranscription s) = [] \<and> trim (currentOutputTranscription s) = []
      then s
      else (if trim (currentOutputTranscription s) \<noteq> []
            then saveToDb \<lparr>entry_text = trim (currentOutputTranscription s), entry_type = ai,
                           timestamp = dateNow_ai r\<rparr> s
            else s)
           \<lparr>transcriptions :=
              slice_last 15 (transcriptions s
                @ newEntries r (trim (currentInputTranscription s))
                    (trim (currentOutputTranscription s))),
            currentInputTranscription := [],
            currentOutputTranscription := []\<rparr>)"
  by (simp add: turn_complete_def Let_def saveToDb_def)

lemma turn_complete_log:
  "transcriptions (turn_complete r s) =
     (if trim (currentInputTranscription s) = [] \<and> trim (currentOutputTranscription s) = []
      then transcriptions s
      else slice_last 15 (transcriptions s
             @ newEntries r (trim (currentInputTranscription s))
                 (trim (currentOutputTranscription s))))"
  "currentInputTranscription (turn_complete r s) =
     (if trim (currentInputTranscription s) = [] \<and> trim (currentOutputTranscription s) = []
      then currentInputTranscription s else [])"
  "currentOutputTranscription (turn_complete r s) =
     (if trim (currentInputTranscription s) = [] \<and> trim (currentOutputTranscription s) = []
      then currentOutputTranscription s else [])"
  "dbEntries (turn_complete r s) =
     (if trim (currentOutputTranscription s) = [] then dbEntries s
      else take 50 (\<lparr>entry_text = trim (currentOutputTranscription s), entry_type = ai,
                      timestamp = dateNow_ai r\<rparr> # dbEntries s))"
  "localStorage_db (turn_complete r s) =
     (if trim (currentOutputTranscription s) = [] then localStorage_db s
      else Some (take 50 (\<lparr>entry_text = trim (currentOutputTranscription s), entry_type = ai,
                      timestamp = dateNow_ai r\<rparr> # dbEntries s)))"
  by (simp_all add: turn_complete_cases saveToDb_def Let_def)

lemma hello_transcriptions:
  "transcriptions (run no_failure connected_state hello_events)
     = [\<lparr>entry_text = ''Hello world'', entry_type = user, timestamp = 1000\<rparr>]"
  by (simp add: hello_events_def hello_fragments_def run_def onmessage_def Let_def
      fragment_msg_def turn_msg_def no_content_def js_text_def turn_complete_cases
      connected_state_fields newEntries_def trim_def js_whitespace_def slice_last_def
      at_clock_fields)

text \<open>
  C6, as stated, fails: the buffers are reset inside the test that one trimmed buffer is
  non-empty. A turn whose input buffer holds one space produces no entry and leaves the
  space in the buffer.
\<close>

theorem whitespace_buffer_not_reset:
  "currentInputTranscription
     (run no_failure connected_state [OnMessage (at_clock 0 0) blank_turn_msg]) = '' ''
   \<and> currentInputTranscription
     (run no_failure connected_state [OnMessage (at_clock 0 0) blank_turn_msg]) \<noteq> []
   \<and> transcriptions
     (run no_failure connected_state [OnMessage (at_clock 0 0) blank_turn_msg]) = []"
  by (simp add: run_def onmessage_def Let_def blank_turn_msg_def no_content_def js_text_def
      turn_complete_cases connected_state_fields trim_def js_whitespace_def)

text \<open>
  C6, amended. On a turn-complete event both buffers are trimmed and one entry is made
  for each trimmed buffer that is non-empty, the user's before the assistant's, so
  none, one or two. When at least one entry is made, the entries are appended to the
  Transcript Log and both buffers are reset to empty; when none is made, the state is
  left as it is, so that buffers holding only white space keep it. The fragments
  \<open>Hello \<close> and \<open>world\<close> for the user give one entry with the text \<open>Hello world\<close>, and
  a turn with both buffers empty gives no entry.
\<close>

theorem turn_complete_flush:
  "(let u = trim (currentInputTranscription s);
        a = trim (currentOutputTranscription s);
        s' = turn_complete r s
    in length (newEntries r u a) = (if u \<noteq> [] then 1 else 0) + (if a \<noteq> [] then 1 else 0)
       \<and> map entry_type (newEntries r u a)
           = (if u \<noteq> [] then [user] else []) @ (if a \<noteq> [] then [ai] else [])
       \<and> map entry_text (newEntries r u a)
           = (if u \<noteq> [] then [u] else []) @ (if a \<noteq> [] then [a] else [])
       \<and> (u \<noteq> [] \<or> a \<noteq> [] \<longrightarrow>
            transcriptions s' = slice_last 15 (transcriptions s @ newEntries r u a)
            \<and> currentInputTranscription s' = []
            \<and> currentOutputTranscription s' = [])
       \<and> (u = [] \<and> a = [] \<longrightarrow> newEntries r u a = [] \<and> s' = s)
       \<and> (currentInputTranscription s = [] \<and> currentOutputTranscription s = [] \<longrightarrow>
            newEntries r u a = [] \<and> s' = s))
   \<and> transcriptions (run no_failure connected_state hello_events)
       = [\<lparr>entry_text = ''Hello world'', entry_type = user, timestamp = 1000\<rparr>]"
proof -
  have "turn_complete r s = s"
    if "trim (currentInputTranscription s) = []" "trim (currentOutputTranscription s) = []"
    using that by (simp add: turn_complete_cases)
  then show ?thesis
    by (auto simp: Let_def newEntries_def turn_complete_log hello_transcriptions trim_Nil)
qed

lemma hello_fragments_buffers:
  "currentInputTranscription (run no_failure connected_state hello_fragments) = ''Hello world''"
  "currentOutputTranscription (run no_failure connected_state hello_fragments) = []"
  "transcriptions (run no_failure connected_state hello_fragments) = []"
  by (simp_all add: hello_fragments_def run_def onmessage_def Let_def
      fragment_msg_def no_content_def js_text_def connected_state_fields)

lemma trim_hello: "trim ''Hello world'' = ''Hello world''"
  by (simp add: trim_def js_whitespace_def)

theorem turn_complete_flush_witness:
  "trim (currentInputTranscription (run no_failure connected_state hello_fragments))
     = ''Hello world''
   \<and> trim (currentOutputTranscription (run no_failure connected_state hello_fragments)) = []
   \<and> transcriptions (turn_complete (at_clock 0 0)
        (run no_failure connected_state hello_fragments))
       = [\<lparr>entry_text = ''Hello world'', entry_type = user, timestamp = 1000\<rparr>]
   \<and> currentInputTranscription (turn_complete (at_clock 0 0)
        (run no_failure connected_state hello_fragments)) = []
   \<and> turn_complete (at_clock 0 0) connected_state = connected_state"
proof -
  have u: "trim (currentInputTranscription (run no_failure connected_state hello_fragments))
     = ''Hello world''"
    "trim (currentOutputTranscription (run no_failure connected_state hello_fragments)) = []"
    by (simp_all add: hello_fragments_buffers trim_hello trim_Nil)
  have e: "currentInputTranscription connected_state = []"
    "currentOutputTranscription connected_state = []"
    by (simp_all add: connected_state_fields)
  have n: "newEntries (at_clock 0 0) ''Hello world'' []
     = [\<lparr>entry_text = ''Hello world'', entry_type = user, timestamp = 1000\<rparr>]"
    by (simp add: newEntries_def at_clock_fields)
  from u n turn_complete_flush [of "run no_failure connected_state hello_fragments" "at_clock 0 0"]
  have 1: "transcriptions (turn_complete (at_clock 0 0)
        (run no_failure connected_state hello_fragments))
       = [\<lparr>entry_text = ''Hello world'', entry_type = user, timestamp = 1000\<rparr>]
     \<and> currentInputTranscription (turn_complete (at_clock 0 0)
        (run no_failure connected_state hello_fragments)) = []"
    by (simp add: Let_def hello_fragments_buffers slice_last_def)
  from e turn_complete_flush [of connected_state "at_clock 0 0"]
  have 2: "turn_complete (at_clock 0 0) connected_state = connected_state"
    by (simp add: Let_def trim_Nil)
  from u 1 2 show ?thesis by simp
qed

section \<open>The logs\<close>

lemma step_logs:
  "\<not> is_message e \<Longrightarrow> transcriptions (step fails s e) = transcriptions s"
  "\<not> is_message e \<Longrightarrow> dbEntries (step fails s e) = dbEntries s"
  "\<not> is_message e \<Longrightarrow> localStorage_db (step fails s e) = localStorage_db s"
  by (cases e;
      simp add: click_def startSession_def stopSession_fields gotUserMedia_def
        contextsCreated_def startFailed_def onopen_def resolved_def onerror_def onclose_def
        video_tick_def onaudioprocess_def submit_def onended_def Let_def
        split: option.splits)+

lemma onmessage_logs:
  "transcriptions (onmessage fails r m s) =
     transcriptions (if turnComplete m then turn_complete r
        (s\<lparr>currentInputTranscription := currentInputTranscription s @
              (case inputTranscription m of Some t \<Rightarrow> js_text t | None \<Rightarrow> []),
           currentOutputTranscription := currentOutputTranscription s @
              (case outputTranscription m of Some t \<Rightarrow> js_text t | None \<Rightarrow> [])\<rparr>) else s)"
  "dbEntries (onmessage fails r m s) =
     dbEntries (if turnComplete m then turn_complete r
        (s\<lparr>currentInputTranscription := currentInputTranscription s @
              (case inputTranscription m of Some t \<Rightarrow> js_text t | None \<Rightarrow> []),
           currentOutputTranscription := currentOutputTranscription s @
              (case outputTranscription m of Some t \<Rightarrow> js_text t | None \<Rightarrow> [])\<rparr>) else s)"
  "localStorage_db (onmessage fails r m s) =
     localStorage_db (if turnComplete m then turn_complete r
        (s\<lparr>currentInputTranscription := currentInputTranscription s @
              (case inputTranscription m of Some t \<Rightarrow> js_text t | None \<Rightarrow> []),
           currentOutputTranscription := currentOutputTranscription s @
              (case outputTranscription m of Some t \<Rightarrow> js_text t | None \<Rightarrow> [])\<rparr>) else s)"
  by (auto simp: onmessage_def Let_def interrupt_eq enqueue_audio_eq turn_complete_log
      split: option.splits)

lemma length_slice_last: "length (slice_last n xs) \<le> n"
  by (simp add: slice_last_def)

lemma turn_complete_log_inv: "log_inv s \<Longrightarrow> log_inv (turn_complete r s)"
  by (auto simp: log_inv_def turn_complete_log length_slice_last list_all_iff
      dest: in_set_takeD)

lemma log_inv_fields:
  "dbEntries s' = dbEntries s \<Longrightarrow> transcriptions s' = transcriptions s \<Longrightarrow>
   localStorage_db s' = localStorage_db s \<Longrightarrow> log_inv s' = log_inv s"
  by (simp add: log_inv_def)

lemma step_log_inv: "log_inv s \<Longrightarrow> log_inv (step fails s e)"
proof (cases "is_message e")
  case False
  assume "log_inv s"
  with False show ?thesis
    by (simp add: log_inv_fields [of "step fails s e" s] step_logs)
next
  case True
  assume inv: "log_inv s"
  from True obtain r m where e: "e = OnMessage r m"
    by (cases e) simp_all
  let ?s = "s\<lparr>currentInputTranscription := currentInputTranscription s @
              (case inputTranscription m of Some t \<Rightarrow> js_text t | None \<Rightarrow> []),
           currentOutputTranscription := currentOutputTranscription s @
              (case outputTranscription m of Some t \<Rightarrow> js_text t | None \<Rightarrow> [])\<rparr>"
  let ?t = "if turnComplete m then turn_complete r ?s else s"
  have "log_inv ?s"
    using inv by (simp add: log_inv_def)
  then have "log_inv ?t"
    using inv by (simp add: turn_complete_log_inv)
  moreover have "log_inv (onmessage fails r m s) = log_inv ?t"
    by (rule log_inv_fields) (simp_all only: onmessage_logs)
  ultimately show ?thesis
    by (simp add: e)
qed

lemma run_log_inv: "log_inv s \<Longrightarrow> log_inv (run fails s es)"
  by (induction es arbitrary: s) (simp_all add: run_Nil run_Cons step_log_inv)

lemma init_log_inv: "stored_ok st \<Longrightarrow> log_inv (init st)"
  by (cases st) (simp_all add: stored_ok_def log_inv_def init_def load_db_def initial_def)

lemma step_dbEntries_ai:
  "set (dbEntries (step fails s e)) \<subseteq> set (dbEntries s) \<union> {x. entry_type x = ai}"
proof (cases "is_message e")
  case False
  then show ?thesis by (simp add: step_logs)
next
  case True
  then obtain r m where e: "e = OnMessage r m"
    by (cases e) simp_all
  show ?thesis
    by (auto simp: e onmessage_logs turn_complete_log dest!: in_set_takeD)
qed

text \<open>
  C7. From a stored Memory Log of at most 50 assistant entries, every run keeps the
  Memory Log within 50 entries, all of them assistant entries, and equal to the stored
  item once anything has been stored; the Transcript Log stays within 15 entries.
  \<^verbatim>\<open>saveToDb\<close> puts the new entry at index 0, drops the last entry of a full log and
  writes the result to storage. No event adds any other than an assistant entry to the
  Memory Log: a turn appends the assistant entry there and nothing for the user. A turn
  that makes entries leaves the last 15 of the extended Transcript Log, so that a 16th
  entry evicts the first.
\<close>

theorem memory_log_bounded:
  "(stored_ok st \<longrightarrow>
      (let s = run fails (init st) es
       in length (dbEntries s) \<le> 50
          \<and> (\<forall>e \<in> set (dbEntries s). entry_type e = ai)
          \<and> length (transcriptions s) \<le> 15
          \<and> (localStorage_db s = Some (dbEntries s)
              \<or> (localStorage_db s = None \<and> dbEntries s = []))))
   \<and> dbEntries (saveToDb x s) = take 50 (x # dbEntries s)
   \<and> localStorage_db (saveToDb x s) = Some (dbEntries (saveToDb x s))
   \<and> (length (dbEntries s) < 50 \<longrightarrow> dbEntries (saveToDb x s) = x # dbEntries s)
   \<and> (length (dbEntries s) = 50 \<longrightarrow> dbEntries (saveToDb x s) = x # butlast (dbEntries s))
   \<and> set (dbEntries (step fails s ev)) \<subseteq> set (dbEntries s) \<union> {e. entry_type e = ai}
   \<and> (trim (currentOutputTranscription s) = [] \<longrightarrow>
        dbEntries (turn_complete r s) = dbEntries s)
   \<and> (trim (currentOutputTranscription s) \<noteq> [] \<longrightarrow>
        dbEntries (turn_complete r s)
          = take 50 (\<lparr>entry_text = trim (currentOutputTranscription s), entry_type = ai,
                       timestamp = dateNow_ai r\<rparr> # dbEntries s)
        \<and> localStorage_db (turn_complete r s) = Some (dbEntries (turn_complete r s)))
   \<and> (let new = newEntries r (trim (currentInputTranscription s))
                    (trim (currentOutputTranscription s))
       in new \<noteq> [] \<longrightarrow>
            transcriptions (turn_complete r s) = slice_last 15 (transcriptions s @ new)
            \<and> length (transcriptions (turn_complete r s)) \<le> 15
            \<and> (length (transcriptions s) = 15 \<and> length new = 1 \<longrightarrow>
                 transcriptions (turn_complete r s) = tl (transcriptions s) @ new))"
proof -
  have a: "stored_ok st \<longrightarrow>
      (let s = run fails (init st) es
       in length (dbEntries s) \<le> 50
          \<and> (\<forall>e \<in> set (dbEntries s). entry_type e = ai)
          \<and> length (transcriptions s) \<le> 15
          \<and> (localStorage_db s = Some (dbEntries s)
              \<or> (localStorage_db s = None \<and> dbEntries s = [])))"
  proof
    assume "stored_ok st"
    then have "log_inv (run fails (init st) es)"
      by (simp add: init_log_inv run_log_inv)
    then show "let s = run fails (init st) es
       in length (dbEntries s) \<le> 50
          \<and> (\<forall>e \<in> set (dbEntries s). entry_type e = ai)
          \<and> length (transcriptions s) \<le> 15
          \<and> (localStorage_db s = Some (dbEntries s)
              \<or> (localStorage_db s = None \<and> dbEntries s = []))"
      by (simp add: log_inv_def Let_def list_all_iff)
  qed
  have b: "dbEntries (saveToDb x s) = take 50 (x # dbEntries s)"
    "localStorage_db (saveToDb x s) = Some (dbEntries (saveToDb x s))"
    by (simp_all add: saveToDb_def Let_def)
  have c: "length (dbEntries s) < 50 \<longrightarrow> dbEntries (saveToDb x s) = x # dbEntries s"
    by (simp add: b)
  have d: "length (dbEntries s) = 50 \<longrightarrow> dbEntries (saveToDb x s) = x # butlast (dbEntries s)"
    by (simp add: b butlast_conv_take)
  have e: "set (dbEntries (step fails s ev)) \<subseteq> set (dbEntries s) \<union> {e. entry_type e = ai}"
    by (rule step_dbEntries_ai)
  have f: "trim (currentOutputTranscription s) = [] \<longrightarrow>
        dbEntries (turn_complete r s) = dbEntries s"
    "trim (currentOutputTranscription s) \<noteq> [] \<longrightarrow>
        dbEntries (turn_complete r s)
          = take 50 (\<lparr>entry_text = trim (currentOutputTranscription s), entry_type = ai,
                       timestamp = dateNow_ai r\<rparr> # dbEntries s)
        \<and> localStorage_db (turn_complete r s) = Some (dbEntries (turn_complete r s))"
    by (simp_all add: turn_complete_log)
  have g: "let new = newEntries r (trim (currentInputTranscription s))
                    (trim (currentOutputTranscription s))
       in new \<noteq> [] \<longrightarrow>
            transcriptions (turn_complete r s) = slice_last 15 (transcriptions s @ new)
            \<and> length (transcriptions (turn_complete r s)) \<le> 15
            \<and> (length (transcriptions s) = 15 \<and> length new = 1 \<longrightarrow>
                 transcriptions (turn_complete r s) = tl (transcriptions s) @ new)"
    by (auto simp: Let_def turn_complete_log length_slice_last newEntries_def slice_last_def
        drop_Suc tl_drop)
  from a b c d e f g show ?thesis
    by (intro conjI)
qed

theorem memory_log_bounded_witness:
  "stored_ok (Some (replicate 50 old_entry))
   \<and> length (dbEntries (init (Some (replicate 50 old_entry)))) = 50
   \<and> dbEntries (saveToDb new_entry (init (Some (replicate 50 old_entry))))
       = new_entry # butlast (replicate 50 old_entry)
   \<and> length (dbEntries (run no_failure (init (Some (replicate 50 old_entry))) connect_events))
       \<le> 50
   \<and> length (transcriptions full_transcript) = 15
   \<and> transcriptions (turn_complete (at_clock 0 0) full_transcript)
       = tl (replicate 15 old_entry)
         @ [\<lparr>entry_text = ''Hi'', entry_type = user, timestamp = 1000\<rparr>]"
proof -
  let ?st = "Some (replicate 50 old_entry)"
  have 1: "stored_ok ?st"
    by (simp add: stored_ok_def old_entry_def list_all_iff)
  have 2: "length (dbEntries (init ?st)) = 50"
    by (simp add: init_def load_db_def initial_def)
  have 3: "dbEntries (init ?st) = replicate 50 old_entry"
    by (simp add: init_def load_db_def initial_def)
  have 4: "transcriptions full_transcript = replicate 15 old_entry"
    "trim (currentInputTranscription full_transcript) = ''Hi''"
    "trim (currentOutputTranscription full_transcript) = []"
    by (simp_all add: full_transcript_def connected_state_fields trim_def js_whitespace_def)
  have 5: "newEntries (at_clock 0 0) ''Hi'' []
            = [\<lparr>entry_text = ''Hi'', entry_type = user, timestamp = 1000\<rparr>]"
    by (simp add: newEntries_def at_clock_fields)
  note t = memory_log_bounded [of ?st no_failure connect_events new_entry "init ?st" Click
      "at_clock 0 0"]
  note t' = memory_log_bounded [of ?st no_failure connect_events new_entry full_transcript Click
      "at_clock 0 0"]
  from 2 t have "dbEntries (saveToDb new_entry (init ?st))
       = new_entry # butlast (dbEntries (init ?st))"
    by blast
  then have a: "dbEntries (saveToDb new_entry (init ?st))
       = new_entry # butlast (replicate 50 old_entry)"
    by (simp only: 3)
  from 1 t have "let s = run no_failure (init ?st) connect_events
       in length (dbEntries s) \<le> 50
          \<and> (\<forall>e \<in> set (dbEntries s). entry_type e = ai)
          \<and> length (transcriptions s) \<le> 15
          \<and> (localStorage_db s = Some (dbEntries s)
              \<or> (localStorage_db s = None \<and> dbEntries s = []))"
    by blast
  then have b: "length (dbEntries (run no_failure (init ?st) connect_events)) \<le> 50"
    by (simp only: Let_def)
  have 6: "length (transcriptions full_transcript) = 15"
    by (simp add: 4)
  from t' have "let new = newEntries (at_clock 0 0) (trim (currentInputTranscription full_transcript))
                    (trim (currentOutputTranscription full_transcript))
       in new \<noteq> [] \<longrightarrow>
            transcriptions (turn_complete (at_clock 0 0) full_transcript)
              = slice_last 15 (transcriptions full_transcript @ new)
            \<and> length (transcriptions (turn_complete (at_clock 0 0) full_transcript)) \<le> 15
            \<and> (length (transcriptions full_transcript) = 15 \<and> length new = 1 \<longrightarrow>
                 transcriptions (turn_complete (at_clock 0 0) full_transcript)
                   = tl (transcriptions full_transcript) @ new)"
    by blast
  then have "[\<lparr>entry_text = ''Hi'', entry_type = user, timestamp = 1000\<rparr>] \<noteq> [] \<longrightarrow>
            transcriptions (turn_complete (at_clock 0 0) full_transcript)
              = slice_last 15 (transcriptions full_transcript
                  @ [\<lparr>entry_text = ''Hi'', entry_type = user, timestamp = 1000\<rparr>])
            \<and> length (transcriptions (turn_complete (at_clock 0 0) full_transcript)) \<le> 15
            \<and> (length (transcriptions full_transcript) = 15
                 \<and> length [\<lparr>entry_text = ''Hi'', entry_type = user, timestamp = 1000\<rparr>] = 1 \<longrightarrow>
                 transcriptions (turn_complete (at_clock 0 0) full_transcript)
                   = tl (transcriptions full_transcript)
                     @ [\<lparr>entry_text = ''Hi'', entry_type = user, timestamp = 1000\<rparr>])"
    by (simp only: Let_def 4(2,3) 5)
  with 6 have "transcriptions (turn_complete (at_clock 0 0) full_transcript)
                   = tl (transcriptions full_transcript)
                     @ [\<lparr>entry_text = ''Hi'', entry_type = user, timestamp = 1000\<rparr>]"
    by auto
  then have c: "transcriptions (turn_complete (at_clock 0 0) full_transcript)
       = tl (replicate 15 old_entry)
         @ [\<lparr>entry_text = ''Hi'', entry_type = user, timestamp = 1000\<rparr>]"
    by (simp only: 4(1))
  from 1 2 a b 6 c show ?thesis
    by (intro conjI)
qed

section \<open>The transcript across sessions\<close>

text \<open>
  C10. Neither \<^verbatim>\<open>stopSession\<close> nor \<^verbatim>\<open>startSession\<close> changes the Transcript Log, so it
  survives a stop followed by a start. \<^verbatim>\<open>startSession\<close> clears the error message and
  sets the state to CONNECTING and changes no other hook or ref. No event other than an
  inbound message changes the Transcript Log.
\<close>

theorem transcript_log_persists:
  "transcriptions (stopSession fails s) = transcriptions s
   \<and> transcriptions (startSession s) = transcriptions s
   \<and> transcriptions (startSession (stopSession fails s)) = transcriptions s
   \<and> error (startSession s) = None
   \<and> sessionState (startSession s) = CONNECTING
   \<and> (startSession s)\<lparr>error := error s, sessionState := sessionState s,
                        closures := closures s, fresh := fresh s\<rparr> = s
   \<and> ((\<forall>e \<in> set es. \<not> is_message e) \<longrightarrow>
        transcriptions (run fails s es) = transcriptions s)"
proof -
  have "transcriptions (run fails s es) = transcriptions s" if "\<forall>e \<in> set es. \<not> is_message e"
    using that by (induction es arbitrary: s) (simp_all add: run_Nil run_Cons step_logs)
  then show ?thesis
    by (simp add: stopSession_fields startSession_def)
qed

theorem transcript_log_persists_witness:
  "transcriptions (run no_failure connected_state hello_events)
     = [\<lparr>entry_text = ''Hello world'', entry_type = user, timestamp = 1000\<rparr>]
   \<and> filter is_message reconnect_events = []
   \<and> transcriptions (run no_failure (run no_failure connected_state hello_events)
        reconnect_events)
       = [\<lparr>entry_text = ''Hello world'', entry_type = user, timestamp = 1000\<rparr>]
   \<and> sessionState (run no_failure (run no_failure connected_state hello_events)
        reconnect_events) = CONNECTED"
proof -
  have 1: "\<forall>e \<in> set reconnect_events. \<not> is_message e"
    by (simp add: reconnect_events_def)
  have 2: "sessionState (run no_failure (run no_failure connected_state hello_events)
        reconnect_events) = CONNECTED"
    by (simp add: reconnect_events_def run_Cons run_Nil step_sessionState_cases
        del: step.simps)
  from 1 transcript_log_persists [of no_failure "run no_failure connected_state hello_events"
      reconnect_events]
  have "transcriptions (run no_failure (run no_failure connected_state hello_events)
        reconnect_events) = transcriptions (run no_failure connected_state hello_events)"
    by simp
  moreover have "filter is_message reconnect_events = []"
    by (simp add: reconnect_events_def)
  ultimately show ?thesis
    using 2 by (simp add: hello_transcriptions)
qed

section \<open>The capture pipelines\<close>

text \<open>
  C2. After a start from the button, the open callback and the resolved connection, the
  state is CONNECTED and the timer of period 1000 ms runs, but the closure of the timer
  callback holds the state of the render in which \<^verbatim>\<open>startSession\<close> was called, which is
  DISCONNECTED: a tick with a frame at hand submits nothing.
\<close>

theorem video_frame_not_submitted:
  "sessionState connected_state = CONNECTED
   \<and> timers connected_state = [\<lparr>tid = 2, owner = 1, period_ms = 1000\<rparr>]
   \<and> 1 \<in> fulfilled connected_state
   \<and> closures connected_state 1 = Some DISCONNECTED
   \<and> sent (run no_failure connected_state [VideoTick 2 (\<lambda>q. Some ''jpeg'')]) = []
   \<and> queued (run no_failure connected_state [VideoTick 2 (\<lambda>q. Some ''jpeg'')]) = []"
proof -
  have "closures connected_state 1 = Some DISCONNECTED"
    by (rule connected_state_fields)
  moreover have "sent (run no_failure connected_state [VideoTick 2 (\<lambda>q. Some ''jpeg'')]) = []"
    "queued (run no_failure connected_state [VideoTick 2 (\<lambda>q. Some ''jpeg'')]) = []"
    using calculation by (simp_all add: connected_state_fields run_def video_tick_def)
  ultimately show ?thesis
    by (simp add: connected_state_fields)
qed

text \<open>
  C8. A press of the stop button on the connected session closes the session, cancels
  the video timer and stops the tracks of the stream, but the audio processor stays
  registered: its next block is handed to \<^verbatim>\<open>sendRealtimeInput\<close> of the closed session.
  After a reconnection two processors are registered.
\<close>

theorem audio_processor_survives_stop:
  "sessionState (run no_failure connected_state [Click]) = DISCONNECTED
   \<and> sessionRef (run no_failure connected_state [Click]) = None
   \<and> closed (run no_failure connected_state [Click]) = {1}
   \<and> timers (run no_failure connected_state [Click]) = []
   \<and> liveStreams (run no_failure connected_state [Click]) = {}
   \<and> processors (run no_failure connected_state [Click]) = {1}
   \<and> sent (run no_failure connected_state [Click]) = []
   \<and> sent (run no_failure connected_state [Click, AudioProcess 1 ''pcm''])
       = [\<lparr>session = 1, mimeType = ''audio/pcm;rate=16000'', payload = ''pcm''\<rparr>]
   \<and> processors (run no_failure connected_state reconnect_events) = {1, 3}"
  by (simp add: run_def click_def connected_state_fields stopSession_eq closed_after_def
      timers_after_def streams_after_def interval_after_def no_failure_def
      onaudioprocess_def submit_def reconnect_events_def startSession_def gotUserMedia_def
      contextsCreated_def onopen_def resolved_def insert_commute)

text \<open>
  No run submits a video frame: the start button is the only caller of
  \<^verbatim>\<open>startSession\<close> and is rendered only while the state is DISCONNECTED, so no closure
  ever holds CONNECTED and the test of the timer callback never succeeds.
\<close>

lemma step_video_inv: "video_inv s \<Longrightarrow> video_inv (step fails s e)"
proof (cases e)
  case Click
  assume "video_inv s"
  then show ?thesis
    by (auto simp: Click video_inv_def click_def startSession_def stopSession_fields)
next
  case (Resolved k)
  assume "video_inv s"
  then show ?thesis
    by (auto simp: Resolved video_inv_def resolved_def)
next
  case (VideoTick t toBlob)
  assume "video_inv s"
  then show ?thesis
    by (auto simp: VideoTick video_inv_def video_tick_def split: option.splits)
next
  case (AudioProcess k d)
  assume "video_inv s"
  then show ?thesis
    by (auto simp: AudioProcess video_inv_def onaudioprocess_def submit_def Let_def)
next
  case (OnMessage r m)
  assume "video_inv s"
  then show ?thesis
    by (simp add: OnMessage video_inv_def onmessage_frame)
qed (simp_all add: video_inv_def gotUserMedia_def contextsCreated_def startFailed_def
      onopen_def onerror_def onclose_def onended_def stopSession_fields Let_def)

lemma run_video_inv: "video_inv s \<Longrightarrow> video_inv (run fails s es)"
  by (induction es arbitrary: s) (simp_all add: run_Nil run_Cons step_video_inv)

lemma init_video_inv: "video_inv (init st)"
  by (cases st) (simp_all add: video_inv_def init_def load_db_def initial_def)

lemma video_frames_never_sent:
  "c \<in> set (sent (run fails (init st) es)) \<Longrightarrow> mimeType c \<noteq> ''image/jpeg''"
  using run_video_inv [OF init_video_inv, of fails st es]
  by (simp add: video_inv_def)

end
